theory Spec2Isabelle
  imports Main "HOL-Library.AList" "HOL-Library.Word"
begin

section \<open>The platform underneath \<open>winss::FilesystemInterface\<close>\<close>

text \<open>
  \<open>src/lib/winss/filesystem_interface.cpp\<close> is a thin layer over
  \<open>std::experimental::filesystem\<close>, the file streams and three Win32 calls.
  The platform is modelled as a \<open>world\<close>: the filesystem objects (an association
  list from path to node, in enumeration order), the working directory, the table
  of open native handles with the log of handle calls, and the failures the
  platform is going to report (\<open>fault\<close>, \<open>short_write\<close>). A path string stands
  for the object it names, a separator at the end of a directory's path apart;
  other spellings of one object (links, dot components, relative against
  absolute) are known to \<open>fs::canonical\<close> only, through \<open>alias_of\<close>. Logging
  (\<open>VLOG\<close>) has no effect on any result and is left out.

  The fields that stand for code outside the repository: \<open>fault q p\<close> says that
  the platform call \<open>q\<close> fails on path \<open>p\<close>; \<open>short_write p\<close> is the number of
  characters the device accepts of a write to \<open>p\<close> before it fails, if it does;
  \<open>alias_of p\<close> is the name that \<open>p\<close>, a link or a dotted spelling, stands for;
  \<open>final_path p\<close> is the name \<open>GetFinalPathNameByHandle\<close> reports for a handle
  opened on \<open>p\<close>.
\<close>

type_synonym path = string

datatype node = File string | Dir | Special

datatype prim =
  OpenRead | OpenWrite | CurrentPath | Status | CreateDir | RenameP | RemoveP
  | Canonical | DirIter | CreateFileP | FinalPathName

text \<open>
  The two classes of exception the handlers of the source tell apart:
  \<open>fs::filesystem_error\<close> (every platform failure reported by a filesystem
  function) and any other \<open>std::exception\<close>.
\<close>

datatype exn = filesystem_error prim path | other_exception

datatype file_type = not_found | regular | directory | unknown

datatype HANDLE = INVALID_HANDLE_VALUE | Handle nat

datatype event = EvCreateFile path HANDLE | EvCloseHandle HANDLE

record world =
  nodes :: "(path \<times> node) list"
  cwd :: path
  fault :: "prim \<Rightarrow> path \<Rightarrow> bool"
  short_write :: "path \<Rightarrow> nat option"
  alias_of :: "path \<Rightarrow> path option"
  final_path :: "path \<Rightarrow> string"
  handles :: "(nat \<times> path) list"
  trace :: "event list"

subsection \<open>Paths\<close>

definition is_sep :: "char \<Rightarrow> bool" where
  "is_sep c = (c = CHR ''/'' \<or> c = CHR 0x5C)"

definition parent_path :: "path \<Rightarrow> path" where
  "parent_path p = rev (drop 1 (dropWhile (\<lambda>c. \<not> is_sep c) (rev p)))"

definition filename :: "path \<Rightarrow> path" where
  "filename p = rev (takeWhile (\<lambda>c. \<not> is_sep c) (rev p))"

text \<open>
  A path with separators at its end names the directory of the path without
  them. A path made of separators only is left as it is.
\<close>

definition strip_sep :: "path \<Rightarrow> path" where
  "strip_sep p =
     (if dropWhile is_sep (rev p) = [] then p else rev (dropWhile is_sep (rev p)))"

text \<open>
  The object stored under a path, and the object a path names: nothing for the
  empty path, and nothing for a path with a separator at its end unless a
  directory is stored there.
\<close>

definition entry_at :: "world \<Rightarrow> path \<Rightarrow> node option" where
  "entry_at w p = map_of (nodes w) (strip_sep p)"

definition lookup :: "world \<Rightarrow> path \<Rightarrow> node option" where
  "lookup w p =
     (if p = [] then None
      else case entry_at w p of
             None \<Rightarrow> None
           | Some Dir \<Rightarrow> Some Dir
           | Some n \<Rightarrow> if strip_sep p = p then Some n else None)"

definition parent_ok :: "world \<Rightarrow> path \<Rightarrow> bool" where
  "parent_ok w p = (parent_path p = [] \<or> lookup w (parent_path p) = Some Dir)"

definition children :: "world \<Rightarrow> path \<Rightarrow> path list" where
  "children w d =
     filter (\<lambda>p. d \<noteq> [] \<and> filename p \<noteq> [] \<and> parent_path p = strip_sep d) (map fst (nodes w))"

subsection \<open>File streams\<close>

text \<open>
  A \<open>std::ifstream\<close> or \<open>std::ofstream\<close> whose exception mask was never set
  (the source never calls \<open>exceptions\<close>) reports a failure in its state bits and
  raises nothing: a stream that did not open reads no character and writes none,
  and a write the device cuts short leaves the characters that got through.
  Text-mode translation of the line terminator is not modelled: the file holds
  the characters the program wrote.
\<close>

definition ifstream_read :: "path \<Rightarrow> world \<Rightarrow> string" where
  "ifstream_read p w =
     (if fault w OpenRead p then []
      else case lookup w p of Some (File c) \<Rightarrow> c | _ \<Rightarrow> [])"

definition ofstream_opens :: "path \<Rightarrow> world \<Rightarrow> bool" where
  "ofstream_opens p w =
     (\<not> fault w OpenWrite p \<and> filename p \<noteq> [] \<and> parent_ok w p \<and>
      (case lookup w p of None \<Rightarrow> True | Some (File c) \<Rightarrow> True | Some n \<Rightarrow> False))"

definition ofstream_write :: "path \<Rightarrow> string \<Rightarrow> world \<Rightarrow> world" where
  "ofstream_write p s w =
     (if ofstream_opens p w
      then w\<lparr>nodes := AList.update p
                (File (case short_write w p of None \<Rightarrow> s | Some n \<Rightarrow> take n s)) (nodes w)\<rparr>
      else w)"

subsection \<open>Filesystem functions\<close>

text \<open>
  The throwing overloads of \<open>std::experimental::filesystem\<close>, as the source
  calls them: a failure is \<open>Inl\<close> of a \<open>filesystem_error\<close>. \<open>status\<close> of a
  missing path is \<open>not_found\<close>, not a failure. \<open>create_directory\<close> returns false
  without failing when the path exists already. \<open>remove\<close> returns false without
  failing when there is nothing to remove, and fails on a directory that has
  children. \<open>rename\<close> replaces an existing file at the target.
\<close>

definition fs_status :: "path \<Rightarrow> world \<Rightarrow> exn + file_type" where
  "fs_status p w =
     (if fault w Status p then Inl (filesystem_error Status p)
      else Inr (case lookup w p of
                  None \<Rightarrow> not_found
                | Some (File c) \<Rightarrow> regular
                | Some Dir \<Rightarrow> directory
                | Some Special \<Rightarrow> unknown))"

definition fs_exists :: "file_type \<Rightarrow> bool" where
  "fs_exists st = (st \<noteq> not_found)"

definition is_directory :: "file_type \<Rightarrow> bool" where
  "is_directory st = (st = directory)"

definition is_regular_file :: "file_type \<Rightarrow> bool" where
  "is_regular_file st = (st = regular)"

definition fs_current_path :: "path \<Rightarrow> world \<Rightarrow> exn + world" where
  "fs_current_path d w =
     (if fault w CurrentPath d \<or> lookup w d \<noteq> Some Dir
      then Inl (filesystem_error CurrentPath d)
      else Inr (w\<lparr>cwd := d\<rparr>))"

definition fs_create_directory :: "path \<Rightarrow> world \<Rightarrow> exn + bool \<times> world" where
  "fs_create_directory d w =
     (if fault w CreateDir d \<or> d = [] then Inl (filesystem_error CreateDir d)
      else if entry_at w d \<noteq> None then Inr (False, w)
      else if \<not> parent_ok w (strip_sep d) then Inl (filesystem_error CreateDir d)
      else Inr (True, w\<lparr>nodes := AList.update (strip_sep d) Dir (nodes w)\<rparr>))"

definition rekey :: "path \<Rightarrow> path \<Rightarrow> path \<Rightarrow> path" where
  "rekey from to p =
     (if p = from then to
      else if length from < length p \<and> take (length from) p = from \<and> is_sep (p ! length from)
      then to @ drop (length from) p
      else p)"

definition fs_rename :: "path \<Rightarrow> path \<Rightarrow> world \<Rightarrow> exn + world" where
  "fs_rename from to w =
     (if fault w RenameP from \<or> fault w RenameP to then Inl (filesystem_error RenameP from)
      else case lookup w from of
        None \<Rightarrow> Inl (filesystem_error RenameP from)
      | Some n \<Rightarrow>
          if strip_sep from = strip_sep to then Inr w
          else if filename (strip_sep to) = [] \<or> \<not> parent_ok w (strip_sep to)
                  \<or> entry_at w to = Some Dir
          then Inl (filesystem_error RenameP from)
          else if n = Dir
          then (if entry_at w to \<noteq> None then Inl (filesystem_error RenameP from)
                else Inr (w\<lparr>nodes := map (\<lambda>(p, m). (rekey (strip_sep from) (strip_sep to) p, m))
                                     (nodes w)\<rparr>))
          else if strip_sep to \<noteq> to then Inl (filesystem_error RenameP from)
          else Inr (w\<lparr>nodes := AList.update to n (AList.delete (strip_sep from) (nodes w))\<rparr>))"

definition fs_remove :: "path \<Rightarrow> world \<Rightarrow> exn + bool \<times> world" where
  "fs_remove p w =
     (if fault w RemoveP p then Inl (filesystem_error RemoveP p)
      else case lookup w p of
        None \<Rightarrow> Inr (False, w)
      | Some n \<Rightarrow>
          if n = Dir \<and> children w p \<noteq> [] then Inl (filesystem_error RemoveP p)
          else Inr (True, w\<lparr>nodes := AList.delete (strip_sep p) (nodes w)\<rparr>))"

text \<open>
  \<open>canonical\<close> resolves the empty path against the working directory, fails on
  any other path that names nothing, and follows \<open>alias_of\<close> (a symbolic link or
  a dotted spelling, and what it stands for) until the name it has reached is
  nobody's alias; it gives up after \<open>symlink_limit\<close> steps.
\<close>

definition symlink_limit :: nat where
  "symlink_limit = 40"

fun follow :: "nat \<Rightarrow> (path \<Rightarrow> path option) \<Rightarrow> path \<Rightarrow> path option" where
  "follow 0 lk p = (case lk p of None \<Rightarrow> Some p | Some t \<Rightarrow> None)"
| "follow (Suc n) lk p = (case lk p of None \<Rightarrow> Some p | Some t \<Rightarrow> follow n lk t)"

definition fs_canonical :: "path \<Rightarrow> world \<Rightarrow> exn + path" where
  "fs_canonical p w =
     (if fault w Canonical p \<or> (p \<noteq> [] \<and> lookup w p = None)
      then Inl (filesystem_error Canonical p)
      else case follow symlink_limit (alias_of w) (if p = [] then cwd w else p) of
             None \<Rightarrow> Inl (filesystem_error Canonical p)
           | Some q \<Rightarrow> if q = [] then Inl (filesystem_error Canonical p) else Inr q)"

definition fs_directory_iterator :: "path \<Rightarrow> world \<Rightarrow> exn + path list" where
  "fs_directory_iterator d w =
     (if fault w DirIter d \<or> lookup w d \<noteq> Some Dir then Inl (filesystem_error DirIter d)
      else Inr (children w d))"

subsection \<open>Native handles\<close>

text \<open>
  \<open>CreateFile\<close> with \<open>OPEN_EXISTING\<close> returns \<open>INVALID_HANDLE_VALUE\<close> when the
  path cannot be opened, a fresh handle otherwise. \<open>CloseHandle\<close> releases an open
  handle and does nothing to a value that is not one. Both calls are logged in
  \<open>trace\<close>. \<open>GetFinalPathNameByHandle\<close> returns 0 on failure; the length of the
  name, without the terminator, when name and terminator fit in \<open>bufsize\<close>
  characters (and then stores them in the buffer); the size that is needed, with
  the terminator, otherwise. \<open>DWORD\<close> is a 32-bit word.
\<close>

definition fresh_handle :: "world \<Rightarrow> nat" where
  "fresh_handle w = Suc (fold max (map fst (handles w)) 0)"

definition CreateFile :: "path \<Rightarrow> world \<Rightarrow> HANDLE \<times> world" where
  "CreateFile p w =
     (if fault w CreateFileP p \<or> lookup w p = None
      then (INVALID_HANDLE_VALUE, w\<lparr>trace := trace w @ [EvCreateFile p INVALID_HANDLE_VALUE]\<rparr>)
      else (Handle (fresh_handle w),
            w\<lparr>handles := (fresh_handle w, p) # handles w,
              trace := trace w @ [EvCreateFile p (Handle (fresh_handle w))]\<rparr>))"

definition CloseHandle :: "HANDLE \<Rightarrow> world \<Rightarrow> world" where
  "CloseHandle h w =
     (case h of
        INVALID_HANDLE_VALUE \<Rightarrow> w\<lparr>trace := trace w @ [EvCloseHandle h]\<rparr>
      | Handle n \<Rightarrow> w\<lparr>handles := AList.delete n (handles w),
                       trace := trace w @ [EvCloseHandle h]\<rparr>)"

definition NUL :: char where
  "NUL = CHR 0x00"

definition GetFinalPathNameByHandle ::
  "HANDLE \<Rightarrow> string \<Rightarrow> 32 word \<Rightarrow> world \<Rightarrow> 32 word \<times> string" where
  "GetFinalPathNameByHandle h buf bufsize w =
     (case h of
        INVALID_HANDLE_VALUE \<Rightarrow> (0, buf)
      | Handle n \<Rightarrow>
          (case map_of (handles w) n of
             None \<Rightarrow> (0, buf)
           | Some p \<Rightarrow>
               if fault w FinalPathName p then (0, buf)
               else if length (final_path w p) < unat bufsize
               then (of_nat (length (final_path w p)),
                     final_path w p @ [NUL] @ drop (Suc (length (final_path w p))) buf)
               else (of_nat (Suc (length (final_path w p))), buf)))"

definition resize :: "nat \<Rightarrow> string \<Rightarrow> string" where
  "resize n buf = take n buf @ replicate (n - length buf) NUL"

section \<open>The operations of \<open>winss::FilesystemInterface\<close>\<close>

text \<open>
  Every operation returns \<open>exn + result\<close>: \<open>Inl\<close> is an exception that leaves
  the operation and reaches its caller, \<open>Inr\<close> is a normal return. An operation
  that changes the platform returns the new world with its value. The two
  handlers are \<open>catch (const std::exception&)\<close> and
  \<open>catch (const fs::filesystem_error&)\<close>.
\<close>

definition catch_exception :: "exn + 'a \<Rightarrow> (exn \<Rightarrow> exn + 'a) \<Rightarrow> exn + 'a" where
  "catch_exception r h = (case r of Inl e \<Rightarrow> h e | Inr v \<Rightarrow> Inr v)"

definition catch_filesystem_error :: "exn + 'a \<Rightarrow> (exn \<Rightarrow> exn + 'a) \<Rightarrow> exn + 'a" where
  "catch_filesystem_error r h =
     (case r of
        Inl (filesystem_error q p) \<Rightarrow> h (filesystem_error q p)
      | Inl other_exception \<Rightarrow> Inl other_exception
      | Inr v \<Rightarrow> Inr v)"

text \<open>The value an operation returns, without the world.\<close>

definition returned :: "exn + 'a \<times> world \<Rightarrow> exn + 'a" where
  "returned r = (case r of Inl e \<Rightarrow> Inl e | Inr (v, w') \<Rightarrow> Inr v)"

definition Read :: "path \<Rightarrow> world \<Rightarrow> exn + string" where
  "Read p w = catch_exception (Inr (ifstream_read p w)) (\<lambda>e. Inr [])"

definition Rename :: "path \<Rightarrow> path \<Rightarrow> world \<Rightarrow> exn + bool \<times> world" where
  "Rename from to w =
     catch_filesystem_error
       (case fs_rename from to w of Inl e \<Rightarrow> Inl e | Inr w' \<Rightarrow> Inr (True, w'))
       (\<lambda>e. Inr (False, w))"

definition temp_path :: "path \<Rightarrow> path" where
  "temp_path p = p @ ''.new''"

definition Write :: "path \<Rightarrow> string \<Rightarrow> world \<Rightarrow> exn + bool \<times> world" where
  "Write p content w =
     (case catch_exception
             (Inr (Some (ofstream_write (temp_path p) (content @ [CHR 0x0A]) w)))
             (\<lambda>e. Inr None) of
        Inl e \<Rightarrow> Inl e
      | Inr None \<Rightarrow> Inr (False, w)
      | Inr (Some w1) \<Rightarrow> Rename (temp_path p) p w1)"

definition ChangeDirectory :: "path \<Rightarrow> world \<Rightarrow> exn + bool \<times> world" where
  "ChangeDirectory dir w =
     catch_filesystem_error
       (case fs_current_path dir w of Inl e \<Rightarrow> Inl e | Inr w' \<Rightarrow> Inr (True, w'))
       (\<lambda>e. Inr (False, w))"

definition DirectoryExists :: "path \<Rightarrow> world \<Rightarrow> exn + bool" where
  "DirectoryExists dir w =
     catch_filesystem_error
       (case fs_status dir w of
          Inl e \<Rightarrow> Inl e
        | Inr dir_status \<Rightarrow> Inr (fs_exists dir_status \<and> is_directory dir_status))
       (\<lambda>e. Inr False)"

definition CreateDirectory :: "path \<Rightarrow> world \<Rightarrow> exn + bool \<times> world" where
  "CreateDirectory dir w =
     catch_filesystem_error
       (case DirectoryExists dir w of
          Inl e \<Rightarrow> Inl e
        | Inr True \<Rightarrow> Inr (True, w)
        | Inr False \<Rightarrow>
            (case fs_create_directory dir w of
               Inl e \<Rightarrow> Inl e
             | Inr (False, w') \<Rightarrow> Inr (False, w')
             | Inr (True, w') \<Rightarrow> Inr (True, w')))
       (\<lambda>e. Inr (False, w))"

definition Remove :: "path \<Rightarrow> world \<Rightarrow> exn + bool \<times> world" where
  "Remove p w =
     catch_filesystem_error
       (case fs_remove p w of Inl e \<Rightarrow> Inl e | Inr (removed, w') \<Rightarrow> Inr (True, w'))
       (\<lambda>e. Inr (False, w))"

definition FileExists :: "path \<Rightarrow> world \<Rightarrow> exn + bool" where
  "FileExists p w =
     catch_filesystem_error
       (case fs_status p w of
          Inl e \<Rightarrow> Inl e
        | Inr dir_status \<Rightarrow> Inr (fs_exists dir_status \<and> is_regular_file dir_status))
       (\<lambda>e. Inr False)"

definition Absolute :: "path \<Rightarrow> world \<Rightarrow> exn + path" where
  "Absolute p w = catch_exception (fs_canonical p w) (\<lambda>e. Inr p)"

definition loop_measure :: "HANDLE \<times> string \<times> 32 word \<times> world \<Rightarrow> nat" where
  "loop_measure = (\<lambda>(h, buf, b, w).
     if fst (GetFinalPathNameByHandle h buf b w) = 0 \<or>
        fst (GetFinalPathNameByHandle h buf b w) \<le> b
     then 0 else 1)"

text \<open>
  The \<open>while (true)\<close> of \<open>CanonicalUncPath\<close>: \<open>None\<close> is the branch
  \<open>len == 0\<close>, \<open>Some pathbuf\<close> the \<open>break\<close>. The platform answers the second
  query with a length that fits, so the loop is total.
\<close>

function CanonicalUncPath_loop :: "HANDLE \<Rightarrow> string \<Rightarrow> 32 word \<Rightarrow> world \<Rightarrow> string option" where
  "CanonicalUncPath_loop file pathbuf bufsize w =
     (if fst (GetFinalPathNameByHandle file (resize (unat (bufsize + 1)) pathbuf) bufsize w) = 0
      then None
      else if fst (GetFinalPathNameByHandle file (resize (unat (bufsize + 1)) pathbuf) bufsize w)
                \<le> bufsize
      then Some (snd (GetFinalPathNameByHandle file (resize (unat (bufsize + 1)) pathbuf) bufsize w))
      else CanonicalUncPath_loop file
             (snd (GetFinalPathNameByHandle file (resize (unat (bufsize + 1)) pathbuf) bufsize w))
             (fst (GetFinalPathNameByHandle file (resize (unat (bufsize + 1)) pathbuf) bufsize w)) w)"
  by pat_completeness auto
termination
proof (relation "measure loop_measure")
  show "wf (measure loop_measure)" by simp
next
  fix h pathbuf and bufsize :: "32 word" and w
  let ?buf = "resize (unat (bufsize + 1)) pathbuf"
  let ?len = "fst (GetFinalPathNameByHandle h ?buf bufsize w)"
  assume nz: "?len \<noteq> 0" and big: "\<not> ?len \<le> bufsize"
  have fits: "(of_nat L :: 32 word) \<le> b" if "L < unat b" for L b
    using that by (metis le_unat_uoi nat_less_le word_le_nat_alt)
  have "?len = 0 \<or>
    (\<exists>L. (L < unat bufsize \<and> ?len = of_nat L) \<or>
        (\<not> L < unat bufsize \<and> ?len = of_nat (Suc L)
          \<and> (\<forall>buf' b'. fst (GetFinalPathNameByHandle h buf' b' w) =
                (if L < unat b' then of_nat L else of_nat (Suc L)))))"
    by (auto simp: GetFinalPathNameByHandle_def split: HANDLE.splits option.splits)
  with nz big fits obtain L where r: "?len = of_nat (Suc L)"
    and every: "\<forall>buf' b'. fst (GetFinalPathNameByHandle h buf' b' w) =
                (if L < unat b' then of_nat L else of_nat (Suc L))" by auto
  have "fst (GetFinalPathNameByHandle h buf' (of_nat (Suc L)) w) \<le> (of_nat (Suc L) :: 32 word)"
    for buf'
    using every fits by auto
  then have new: "loop_measure (h, buf', ?len, w) = 0" for buf'
    by (simp add: loop_measure_def r)
  have "fst (GetFinalPathNameByHandle h pathbuf bufsize w) = ?len"
    using every by simp
  then have old: "loop_measure (h, pathbuf, bufsize, w) = 1"
    using nz big by (simp add: loop_measure_def)
  show "((h, snd (GetFinalPathNameByHandle h ?buf bufsize w), ?len, w), h, pathbuf, bufsize, w)
          \<in> measure loop_measure"
    using new old by simp
qed

declare CanonicalUncPath_loop.simps [simp del]

definition CanonicalUncPath :: "path \<Rightarrow> world \<Rightarrow> exn + path \<times> world" where
  "CanonicalUncPath p w =
     (case CreateFile p w of
        (file, w1) \<Rightarrow>
          if file = INVALID_HANDLE_VALUE
          then (case Absolute p (CloseHandle file w1) of
                  Inl e \<Rightarrow> Inl e
                | Inr a \<Rightarrow> Inr (a, CloseHandle file w1))
          else (case CanonicalUncPath_loop file [] (of_nat (length p * 2)) w1 of
                  None \<Rightarrow>
                    (case Absolute p (CloseHandle file w1) of
                       Inl e \<Rightarrow> Inl e
                     | Inr a \<Rightarrow> Inr (a, CloseHandle file w1))
                | Some pathbuf \<Rightarrow> Inr (pathbuf, CloseHandle file w1)))"

text \<open>
  The listings: the vector is declared outside the \<open>try\<close>, so when an entry's
  \<open>status()\<close> raises, the handler runs with the entries pushed so far and the
  function returns them. The loop returns the exception that stopped it, if any,
  with the vector.
\<close>

fun GetDirectories_loop :: "world \<Rightarrow> path list \<Rightarrow> path list \<Rightarrow> exn option \<times> path list" where
  "GetDirectories_loop w [] directories = (None, directories)"
| "GetDirectories_loop w (entry # rest) directories =
     (case fs_status entry w of
        Inl e \<Rightarrow> (Some e, directories)
      | Inr st \<Rightarrow>
          if is_directory st then GetDirectories_loop w rest (directories @ [entry])
          else GetDirectories_loop w rest directories)"

fun GetFiles_loop :: "world \<Rightarrow> path list \<Rightarrow> path list \<Rightarrow> exn option \<times> path list" where
  "GetFiles_loop w [] files = (None, files)"
| "GetFiles_loop w (entry # rest) files =
     (case fs_status entry w of
        Inl e \<Rightarrow> (Some e, files)
      | Inr st \<Rightarrow>
          if \<not> is_directory st then GetFiles_loop w rest (files @ [entry])
          else GetFiles_loop w rest files)"

definition GetDirectories :: "path \<Rightarrow> world \<Rightarrow> exn + path list" where
  "GetDirectories p w =
     (case fs_directory_iterator p w of
        Inl e \<Rightarrow> catch_filesystem_error (Inl e) (\<lambda>e. Inr [])
      | Inr entries \<Rightarrow>
          (case GetDirectories_loop w entries [] of
             (None, directories) \<Rightarrow> Inr directories
           | (Some e, directories) \<Rightarrow> catch_filesystem_error (Inl e) (\<lambda>e. Inr directories)))"

definition GetFiles :: "path \<Rightarrow> world \<Rightarrow> exn + path list" where
  "GetFiles p w =
     (case fs_directory_iterator p w of
        Inl e \<Rightarrow> catch_filesystem_error (Inl e) (\<lambda>e. Inr [])
      | Inr entries \<Rightarrow>
          (case GetFiles_loop w entries [] of
             (None, files) \<Rightarrow> Inr files
           | (Some e, files) \<Rightarrow> catch_filesystem_error (Inl e) (\<lambda>e. Inr files)))"

text \<open>How a scan classifies an entry; an entry whose status raises is neither.\<close>

definition is_dir_entry :: "world \<Rightarrow> path \<Rightarrow> bool" where
  "is_dir_entry w e = (case fs_status e w of Inl x \<Rightarrow> False | Inr st \<Rightarrow> is_directory st)"

definition is_file_entry :: "world \<Rightarrow> path \<Rightarrow> bool" where
  "is_file_entry w e = (case fs_status e w of Inl x \<Rightarrow> False | Inr st \<Rightarrow> \<not> is_directory st)"

section \<open>Concrete worlds\<close>

text \<open>A platform that reports no failure, holding the given objects.\<close>

definition quiet :: "(path \<times> node) list \<Rightarrow> world" where
  "quiet ns = \<lparr>nodes = ns, cwd = ''C:'', fault = (\<lambda>q p. False), short_write = (\<lambda>p. None),
      alias_of = (\<lambda>p. None), final_path = (\<lambda>p. p), handles = [], trace = []\<rparr>"

text \<open>Two spellings of one file; the platform resolves the dotted one.\<close>

definition dotted_world :: world where
  "dotted_world = (quiet [(''a/../b'', File ''x''), (''C:/b'', File ''x'')])
     \<lparr>alias_of := (\<lambda>p. if p = ''a/../b'' then Some ''C:/b'' else None)\<rparr>"

text \<open>A directory whose handle opens; the final-path query fails in the second world.\<close>

definition unc_prefix :: string where
  "unc_prefix = [CHR 0x5C, CHR 0x5C, CHR ''?'', CHR 0x5C]"

definition unc_world :: world where
  "unc_world = (quiet [(''C:/d'', Dir)])\<lparr>final_path := (\<lambda>p. unc_prefix @ p)\<rparr>"

definition deaf_world :: world where
  "deaf_world = unc_world\<lparr>fault := (\<lambda>q p. q = FinalPathName)\<rparr>"

text \<open>A directory of four entries; the status of the second cannot be read.\<close>

definition sick_world :: world where
  "sick_world = (quiet [(''d'', Dir), (''d/a'', Dir), (''d/b'', File ''x''), (''d/c'', Dir),
       (''d/e'', File ''y'')])\<lparr>fault := (\<lambda>q p. q = Status \<and> p = ''d/b'')\<rparr>"

text \<open>A directory holding a subdirectory, a regular file and a special file.\<close>

definition mixed_world :: world where
  "mixed_world = quiet [(''d'', Dir), (''d/a'', Dir), (''d/b'', File ''x''), (''d/s'', Special)]"

text \<open>A device that stores three characters of a write and then fails.\<close>

definition full_disk :: world where
  "full_disk = (quiet [(''a'', Dir), (''a/b.txt'', File ''old'')])\<lparr>short_write := (\<lambda>p. Some 3)\<rparr>"

text \<open>A platform that refuses every call.\<close>

definition denied_world :: world where
  "denied_world = (quiet [(''d'', Dir), (''d/f'', File ''x'')])\<lparr>fault := (\<lambda>q p. True)\<rparr>"

text \<open>A directory of three files; the status of the second cannot be read.\<close>

definition flaky_world :: world where
  "flaky_world = (quiet [(''d'', Dir), (''d/x'', File ''1''), (''d/y'', File ''2''),
       (''d/z'', File ''3'')])\<lparr>fault := (\<lambda>q p. q = Status \<and> p = ''d/y'')\<rparr>"

text \<open>A temporary file left by an earlier run, which cannot be opened for writing.\<close>

definition stale_world :: world where
  "stale_world = (quiet [(''a'', Dir), (''a/b.txt.new'', File ''stale'')])
     \<lparr>fault := (\<lambda>q p. q = OpenWrite \<and> p = ''a/b.txt.new'')\<rparr>"

text \<open>A platform on which no status can be read, and nothing else fails.\<close>

definition blind_world :: world where
  "blind_world = (quiet [])\<lparr>fault := (\<lambda>q p. q = Status)\<rparr>"

text \<open>The working directory and nothing else.\<close>

definition home_world :: world where
  "home_world = quiet [(''C:'', Dir)]"

section \<open>Handlers\<close>

lemma catch_fs_Inl [simp]:
  "catch_filesystem_error (Inl (filesystem_error q p)) h = h (filesystem_error q p)"
  by (simp add: catch_filesystem_error_def)

lemma catch_fs_Inr [simp]: "catch_filesystem_error (Inr v) h = Inr v"
  by (simp add: catch_filesystem_error_def)

lemma catch_exception_Inl [simp]: "catch_exception (Inl e) h = h e"
  by (simp add: catch_exception_def)

lemma catch_exception_Inr [simp]: "catch_exception (Inr v) h = Inr v"
  by (simp add: catch_exception_def)

section \<open>CanonicalUncPath\<close>

lemma fold_max_ge: "m \<le> fold max xs (m::nat)"
proof (induction xs arbitrary: m)
  case Nil then show ?case by simp
next
  case (Cons y ys)
  have "m \<le> max y m" by simp
  also have "max y m \<le> fold max ys (max y m)" by (rule Cons.IH)
  finally show ?case by simp
qed

lemma fold_max_mem: "x \<in> set xs \<Longrightarrow> x \<le> fold max xs (m::nat)"
proof (induction xs arbitrary: m)
  case Nil then show ?case by simp
next
  case (Cons y ys)
  show ?case
  proof (cases "x = y")
    case True
    have "max y m \<le> fold max ys (max y m)" by (rule fold_max_ge)
    then show ?thesis using True by simp
  next
    case False
    with Cons show ?thesis by simp
  qed
qed

lemma fresh_handle_new: "fresh_handle w \<notin> fst ` set (handles w)"
proof
  assume "fresh_handle w \<in> fst ` set (handles w)"
  then have "fresh_handle w \<in> set (map fst (handles w))" by simp
  then have "fresh_handle w \<le> fold max (map fst (handles w)) 0" by (rule fold_max_mem)
  then show False by (simp add: fresh_handle_def)
qed

lemma delete_fresh: "AList.delete (fresh_handle w) (handles w) = handles w"
  using fresh_handle_new by (simp add: AList.delete_id)

lemma lookup_same_nodes: "nodes w' = nodes w \<Longrightarrow> lookup w' p = lookup w p"
  by (simp add: lookup_def entry_at_def)

lemma fs_canonical_same:
  assumes "nodes w' = nodes w" and "fault w' = fault w" and "cwd w' = cwd w"
      and "alias_of w' = alias_of w"
  shows "fs_canonical p w' = fs_canonical p w"
  using assms lookup_same_nodes [OF assms(1)] by (simp add: fs_canonical_def)

lemma Absolute_total: "\<exists>q. Absolute p w = Inr q"
  by (cases "fs_canonical p w") (simp_all add: Absolute_def)

lemma Absolute_handles [simp]: "Absolute p (CloseHandle h w) = Absolute p w"
proof -
  have "fs_canonical p (CloseHandle h w) = fs_canonical p w"
    by (rule fs_canonical_same) (simp_all add: CloseHandle_def split: HANDLE.splits)
  then show ?thesis by (simp add: Absolute_def)
qed

lemma Absolute_CreateFile [simp]: "Absolute p (snd (CreateFile q w)) = Absolute p w"
proof -
  have "fs_canonical p (snd (CreateFile q w)) = fs_canonical p w"
    by (rule fs_canonical_same) (simp_all add: CreateFile_def)
  then show ?thesis by (simp add: Absolute_def)
qed

lemma Close_Create_handles:
  "handles (CloseHandle (fst (CreateFile p w)) (snd (CreateFile p w))) = handles w"
  by (simp add: CloseHandle_def CreateFile_def delete_fresh)

lemma Close_Create_trace:
  "trace (CloseHandle (fst (CreateFile p w)) (snd (CreateFile p w))) =
     trace w @ [EvCreateFile p (fst (CreateFile p w)), EvCloseHandle (fst (CreateFile p w))]"
  by (simp add: CloseHandle_def CreateFile_def)

lemma CanonicalUncPath_world:
  "\<exists>v. CanonicalUncPath p w = Inr (v, CloseHandle (fst (CreateFile p w)) (snd (CreateFile p w)))"
proof -
  obtain q where q: "Absolute p w = Inr q" using Absolute_total by blast
  have "Absolute p (CloseHandle h (snd (CreateFile p w))) = Inr q" for h
    using q by simp
  then show ?thesis
    by (cases "CreateFile p w") (auto simp: CanonicalUncPath_def split: option.splits)
qed

lemma unat_of_nat_32: "n < 2 ^ 32 \<Longrightarrow> unat (of_nat n :: 32 word) = n"
  by (simp add: unat_of_nat)

lemma resize_NUL: "resize n (replicate m NUL) = replicate n NUL"
proof -
  have "min m n + (n - m) = n" by simp
  then show ?thesis
    by (simp add: resize_def replicate_add [symmetric] del: replicate_add)
qed

lemma loop_fits:
  assumes Q: "\<And>buf b. GetFinalPathNameByHandle h buf b w =
      (if length fp < unat b then (of_nat (length fp), fp @ [NUL] @ drop (Suc (length fp)) buf)
       else (of_nat (Suc (length fp)), buf))"
    and pos: "fp \<noteq> []" and small: "Suc (length fp) < 2 ^ 32" and fit: "length fp < unat b"
  shows "\<exists>n. CanonicalUncPath_loop h (replicate m NUL) b w = Some (fp @ replicate (Suc n) NUL)"
proof -
  have u: "unat (of_nat (length fp) :: 32 word) = length fp"
    using small by (simp add: unat_of_nat_32)
  have nz: "(of_nat (length fp) :: 32 word) \<noteq> 0"
    using u pos by (metis length_0_conv unat_0)
  have le: "(of_nat (length fp) :: 32 word) \<le> b"
    using u fit by (simp add: word_le_nat_alt)
  have "CanonicalUncPath_loop h (replicate m NUL) b w =
     Some (fp @ [NUL] @ drop (Suc (length fp)) (replicate (unat (b + 1)) NUL))"
    using nz le fit by (subst CanonicalUncPath_loop.simps) (simp add: Q resize_NUL)
  then show ?thesis by simp
qed

lemma loop_succeeds:
  assumes Q: "\<And>buf b. GetFinalPathNameByHandle h buf b w =
      (if length fp < unat b then (of_nat (length fp), fp @ [NUL] @ drop (Suc (length fp)) buf)
       else (of_nat (Suc (length fp)), buf))"
    and pos: "fp \<noteq> []" and small: "Suc (length fp) < 2 ^ 32"
  shows "\<exists>n. CanonicalUncPath_loop h [] b w = Some (fp @ replicate (Suc n) NUL)"
proof (cases "length fp < unat b")
  case True
  from loop_fits [OF Q pos small True, of 0] show ?thesis by simp
next
  case False
  let ?len = "of_nat (Suc (length fp)) :: 32 word"
  have u: "unat ?len = Suc (length fp)"
    using small by (simp only: unat_of_nat_32)
  have nz: "?len \<noteq> 0" using u by (metis nat.distinct(1) unat_0)
  have big: "\<not> ?len \<le> b" using u False by (simp add: word_le_nat_alt)
  have fit: "length fp < unat ?len" using u by simp
  have "CanonicalUncPath_loop h [] b w =
     CanonicalUncPath_loop h (replicate (unat (b + 1)) NUL) ?len w"
    using nz big False resize_NUL [of "unat (b + 1)" 0]
    by (subst CanonicalUncPath_loop.simps) (simp add: Q)
  with loop_fits [OF Q pos small fit] show ?thesis by simp
qed

lemma loop_fails:
  assumes Q: "\<And>buf b. fst (GetFinalPathNameByHandle h buf b w) =
      (if fails then 0 else if 0 < unat b then 0 else 1)"
  shows "CanonicalUncPath_loop h buf b w = None"
proof (cases "fails \<or> 0 < unat b")
  case True
  then show ?thesis by (subst CanonicalUncPath_loop.simps) (auto simp: Q)
next
  case False
  then have b: "b = 0" by (simp add: unat_eq_0)
  have "CanonicalUncPath_loop h buf' 1 w = None" for buf'
    by (subst CanonicalUncPath_loop.simps) (simp add: Q)
  then show ?thesis using False b
    by (subst CanonicalUncPath_loop.simps) (simp add: Q)
qed

lemma query_after_open:
  assumes "\<not> fault w CreateFileP p" and "lookup w p \<noteq> None"
  shows "GetFinalPathNameByHandle (fst (CreateFile p w)) buf b (snd (CreateFile p w)) =
     (if fault w FinalPathName p then (0, buf)
      else if length (final_path w p) < unat b
      then (of_nat (length (final_path w p)),
            final_path w p @ [NUL] @ drop (Suc (length (final_path w p))) buf)
      else (of_nat (Suc (length (final_path w p))), buf))"
  using assms by (auto simp: GetFinalPathNameByHandle_def CreateFile_def)

lemma CanonicalUncPath_open_fails:
  assumes "fault w CreateFileP p \<or> lookup w p = None"
  shows "returned (CanonicalUncPath p w) = Absolute p w"
proof -
  obtain q where q: "Absolute p w = Inr q" using Absolute_total by blast
  have c: "CreateFile p w = (INVALID_HANDLE_VALUE, w\<lparr>trace := trace w @ [EvCreateFile p INVALID_HANDLE_VALUE]\<rparr>)"
    using assms by (auto simp: CreateFile_def)
  have "Absolute p (CloseHandle h (snd (CreateFile p w))) = Inr q" for h
    using q by simp
  then show ?thesis using q
    by (simp add: CanonicalUncPath_def returned_def c)
qed

lemma CanonicalUncPath_query_fails:
  assumes o: "\<not> fault w CreateFileP p" "lookup w p \<noteq> None"
    and f: "fault w FinalPathName p \<or> final_path w p = []"
  shows "returned (CanonicalUncPath p w) = Absolute p w"
proof -
  obtain q where q: "Absolute p w = Inr q" using Absolute_total by blast
  have a: "Absolute p (CloseHandle h (snd (CreateFile p w))) = Inr q" for h
    using q by simp
  have "CanonicalUncPath_loop (fst (CreateFile p w)) buf b (snd (CreateFile p w)) = None" for buf b
    by (rule loop_fails [where fails = "fault w FinalPathName p"])
       (use f in \<open>auto simp: query_after_open [OF o]\<close>)
  then show ?thesis using q a
    by (cases "CreateFile p w") (auto simp: CanonicalUncPath_def returned_def)
qed

lemma CanonicalUncPath_query_succeeds:
  assumes o: "\<not> fault w CreateFileP p" "lookup w p \<noteq> None"
    and f: "\<not> fault w FinalPathName p" "final_path w p \<noteq> []"
           "Suc (length (final_path w p)) < 2 ^ 32"
  shows "\<exists>n. returned (CanonicalUncPath p w) = Inr (final_path w p @ replicate (Suc n) NUL)"
proof -
  have h: "fst (CreateFile p w) \<noteq> INVALID_HANDLE_VALUE"
    using o by (simp add: CreateFile_def)
  have q: "GetFinalPathNameByHandle (fst (CreateFile p w)) buf b (snd (CreateFile p w)) =
     (if length (final_path w p) < unat b
      then (of_nat (length (final_path w p)),
            final_path w p @ [NUL] @ drop (Suc (length (final_path w p))) buf)
      else (of_nat (Suc (length (final_path w p))), buf))" for buf b
    using query_after_open [OF o] f(1) by simp
  have "\<exists>n. CanonicalUncPath_loop (fst (CreateFile p w)) [] (of_nat (length p * 2))
       (snd (CreateFile p w)) = Some (final_path w p @ replicate (Suc n) NUL)"
    by (rule loop_succeeds [OF q f(2) f(3)])
  then obtain n where "CanonicalUncPath_loop (fst (CreateFile p w)) [] (of_nat (length p * 2))
       (snd (CreateFile p w)) = Some (final_path w p @ replicate (Suc n) NUL)" ..
  then show ?thesis using h
    by (cases "CreateFile p w") (auto simp: CanonicalUncPath_def returned_def)
qed


text \<open>
  C9. On every exit path of \<open>CanonicalUncPath\<close> (open failure, query failure,
  after any number of buffer-sizing retries, success) the function returns
  normally with the table of open handles as it was before the call, and the
  handle calls it made are one \<open>CreateFile\<close> followed by one \<open>CloseHandle\<close>
  on the very value that \<open>CreateFile\<close> returned.
\<close>

theorem CanonicalUncPath_closes_handle:
  "\<exists>v w'. CanonicalUncPath p w = Inr (v, w') \<and> handles w' = handles w \<and>
     trace w' = trace w @ [EvCreateFile p (fst (CreateFile p w)), EvCloseHandle (fst (CreateFile p w))]"
  using CanonicalUncPath_world [of p w] Close_Create_handles [of p w] Close_Create_trace [of p w]
  by auto

lemma CanonicalUncPath_padded:
  assumes "\<not> fault w CreateFileP p" and "lookup w p \<noteq> None"
      and "\<not> fault w FinalPathName p" and "final_path w p \<noteq> []"
      and "Suc (length (final_path w p)) < 2 ^ 32"
  shows "returned (CanonicalUncPath p w) \<noteq> Inr (final_path w p)"
  using CanonicalUncPath_query_succeeds [OF assms] by auto

lemma loop_retry_value:
  assumes Q: "\<And>buf b. GetFinalPathNameByHandle h buf b w =
      (if length fp < unat b then (of_nat (length fp), fp @ [NUL] @ drop (Suc (length fp)) buf)
       else (of_nat (Suc (length fp)), buf))"
    and pos: "fp \<noteq> []" and small: "Suc (length fp) < 2 ^ 32"
    and short: "\<not> length fp < unat b"
  shows "CanonicalUncPath_loop h [] b w =
     Some (fp @ NUL # replicate (unat (of_nat (Suc (length fp)) + 1 :: 32 word) - Suc (length fp)) NUL)"
proof -
  let ?len = "of_nat (Suc (length fp)) :: 32 word"
  have u: "unat ?len = Suc (length fp)"
    using small by (simp only: unat_of_nat_32)
  have nz: "?len \<noteq> 0" using u by (metis nat.distinct(1) unat_0)
  have big: "\<not> ?len \<le> b" using u short by (simp add: word_le_nat_alt)
  have fit: "length fp < unat ?len" using u by simp
  have v: "unat (of_nat (length fp) :: 32 word) = length fp"
    using small by (simp add: unat_of_nat_32)
  have nz': "(of_nat (length fp) :: 32 word) \<noteq> 0"
    using v pos by (metis length_0_conv unat_0)
  have le: "(of_nat (length fp) :: 32 word) \<le> ?len"
    using v u by (simp add: word_le_nat_alt)
  have "CanonicalUncPath_loop h [] b w =
     CanonicalUncPath_loop h (replicate (unat (b + 1)) NUL) ?len w"
    using nz big short resize_NUL [of "unat (b + 1)" 0]
    by (subst CanonicalUncPath_loop.simps) (simp add: Q)
  also have "\<dots> = Some (fp @ [NUL] @ drop (Suc (length fp)) (replicate (unat (?len + 1)) NUL))"
    using nz' le fit by (subst CanonicalUncPath_loop.simps) (simp add: Q resize_NUL)
  finally show ?thesis by simp
qed

lemma CanonicalUncPath_retry_value:
  assumes o: "\<not> fault w CreateFileP p" "lookup w p \<noteq> None"
    and f: "\<not> fault w FinalPathName p" "final_path w p \<noteq> []"
           "Suc (length (final_path w p)) < 2 ^ 32"
    and short: "\<not> length (final_path w p) < unat (of_nat (length p * 2) :: 32 word)"
  shows "returned (CanonicalUncPath p w) =
     Inr (final_path w p @ NUL #
          replicate (unat (of_nat (Suc (length (final_path w p))) + 1 :: 32 word)
                       - Suc (length (final_path w p))) NUL)"
proof -
  have h: "fst (CreateFile p w) \<noteq> INVALID_HANDLE_VALUE"
    using o by (auto simp: CreateFile_def)
  have q: "GetFinalPathNameByHandle (fst (CreateFile p w)) buf b (snd (CreateFile p w)) =
     (if length (final_path w p) < unat b
      then (of_nat (length (final_path w p)),
            final_path w p @ [NUL] @ drop (Suc (length (final_path w p))) buf)
      else (of_nat (Suc (length (final_path w p))), buf))" for buf b
    using query_after_open [OF o] f(1) by simp
  have "CanonicalUncPath_loop (fst (CreateFile p w)) [] (of_nat (length p * 2))
       (snd (CreateFile p w)) =
     Some (final_path w p @ NUL #
          replicate (unat (of_nat (Suc (length (final_path w p))) + 1 :: 32 word)
                       - Suc (length (final_path w p))) NUL)"
    by (rule loop_retry_value [OF q f(2) f(3) short])
  then show ?thesis using h
    by (cases "CreateFile p w") (auto simp: CanonicalUncPath_def returned_def)
qed

lemmas world_eval = lookup_def entry_at_def strip_sep_def is_sep_def parent_ok_def
  parent_path_def filename_def quiet_def

text \<open>
  C6 at a failing input. The handle opens and the query succeeds, reporting a
  name of eight characters; \<open>CanonicalUncPath\<close> returns the whole buffer of ten,
  that name followed by two zero characters, not the name. (When the handle does
  not open or the query fails it returns what \<open>Absolute\<close> returns:
  \<open>CanonicalUncPath_open_fails\<close>, \<open>CanonicalUncPath_query_fails\<close>.)
\<close>

theorem CanonicalUncPath_returns_padding:
  "fst (CreateFile ''C:/d'' unc_world) \<noteq> INVALID_HANDLE_VALUE \<and>
   final_path unc_world ''C:/d'' = unc_prefix @ ''C:/d'' \<and>
   returned (CanonicalUncPath ''C:/d'' unc_world) = Inr (unc_prefix @ ''C:/d'' @ [NUL, NUL])"
  using CanonicalUncPath_retry_value [of unc_world "''C:/d''"]
  by (simp add: CreateFile_def unc_world_def unc_prefix_def world_eval)

section \<open>CreateDirectory\<close>

lemma DirectoryExists_Dir:
  "\<not> fault w Status d \<Longrightarrow> DirectoryExists d w = Inr (lookup w d = Some Dir)"
  by (auto simp: DirectoryExists_def fs_status_def fs_exists_def is_directory_def
      split: option.splits node.splits)

lemma lookup_entry_None: "entry_at w d = None \<Longrightarrow> lookup w d = None"
  by (simp add: lookup_def)

lemma lookup_created:
  "d \<noteq> [] \<Longrightarrow> lookup (w\<lparr>nodes := AList.update (strip_sep d) Dir (nodes w)\<rparr>) d = Some Dir"
  by (simp add: lookup_def entry_at_def update_conv')

lemma CreateDirectory_existing:
  assumes "\<not> fault w Status d" and "lookup w d = Some Dir"
  shows "CreateDirectory d w = Inr (True, w)"
  using assms by (simp add: CreateDirectory_def DirectoryExists_Dir)

lemma CreateDirectory_creates:
  assumes "\<not> fault w Status d" and "\<not> fault w CreateDir d" and "d \<noteq> []"
      and "entry_at w d = None" and "parent_ok w (strip_sep d)"
  shows "CreateDirectory d w = Inr (True, w\<lparr>nodes := AList.update (strip_sep d) Dir (nodes w)\<rparr>)"
  using assms lookup_entry_None [OF assms(4)]
  by (simp add: CreateDirectory_def DirectoryExists_Dir fs_create_directory_def)

lemma CreateDirectory_true:
  assumes "\<not> fault w Status d" and "CreateDirectory d w = Inr (True, w1)"
  shows "lookup w1 d = Some Dir \<and> fault w1 = fault w"
proof (cases "lookup w d = Some Dir")
  case True
  with assms CreateDirectory_existing show ?thesis by simp
next
  case False
  then have "fs_create_directory d w = Inr (True, w1)"
    using assms
    by (cases "fs_create_directory d w")
       (auto simp: CreateDirectory_def DirectoryExists_Dir catch_filesystem_error_def
          split: exn.splits bool.splits)
  then have "d \<noteq> []" and "w1 = w\<lparr>nodes := AList.update (strip_sep d) Dir (nodes w)\<rparr>"
    by (auto simp: fs_create_directory_def split: if_splits)
  then show ?thesis using lookup_created by simp
qed

text \<open>
  C7. \<open>CreateDirectory\<close> is idempotent, on a path whose status the platform
  can read. An existing directory is a success that changes nothing. A path
  that names nothing, in a directory that exists, on a platform that does not
  refuse the creation: the first call creates the directory and returns true,
  \<open>DirectoryExists\<close> is true afterwards, and the second call returns true and
  changes nothing. And after any call that returned true, \<open>DirectoryExists\<close> is
  true and the next call returns true.
\<close>

theorem CreateDirectory_idempotent:
  "(\<not> fault w Status d \<and> lookup w d = Some Dir \<longrightarrow>
      CreateDirectory d w = Inr (True, w) \<and> DirectoryExists d w = Inr True) \<and>
   (\<not> fault w Status d \<and> \<not> fault w CreateDir d \<and> d \<noteq> [] \<and> entry_at w d = None \<and>
    parent_ok w (strip_sep d) \<longrightarrow>
      (\<exists>w1. CreateDirectory d w = Inr (True, w1) \<and> lookup w d = None \<and>
            lookup w1 d = Some Dir \<and> DirectoryExists d w1 = Inr True \<and>
            CreateDirectory d w1 = Inr (True, w1))) \<and>
   (\<not> fault w Status d \<and> CreateDirectory d w = Inr (True, w2) \<longrightarrow>
      DirectoryExists d w2 = Inr True \<and> CreateDirectory d w2 = Inr (True, w2))"
proof (intro conjI impI)
  assume "\<not> fault w Status d \<and> lookup w d = Some Dir"
  then show "CreateDirectory d w = Inr (True, w)" "DirectoryExists d w = Inr True"
    by (simp_all add: CreateDirectory_existing DirectoryExists_Dir)
next
  assume a: "\<not> fault w Status d \<and> \<not> fault w CreateDir d \<and> d \<noteq> [] \<and> entry_at w d = None \<and>
    parent_ok w (strip_sep d)"
  let ?w1 = "w\<lparr>nodes := AList.update (strip_sep d) Dir (nodes w)\<rparr>"
  have c: "CreateDirectory d w = Inr (True, ?w1)"
    using a by (simp add: CreateDirectory_creates)
  have l: "lookup ?w1 d = Some Dir" using a by (simp add: lookup_created)
  have f: "\<not> fault ?w1 Status d" using a by simp
  show "\<exists>w1. CreateDirectory d w = Inr (True, w1) \<and> lookup w d = None \<and>
            lookup w1 d = Some Dir \<and> DirectoryExists d w1 = Inr True \<and>
            CreateDirectory d w1 = Inr (True, w1)"
    using c l a CreateDirectory_existing [OF f l] DirectoryExists_Dir [OF f]
    by (intro exI [of _ ?w1]) (simp add: lookup_entry_None)
next
  assume a: "\<not> fault w Status d \<and> CreateDirectory d w = Inr (True, w2)"
  then have l: "lookup w2 d = Some Dir" and f: "\<not> fault w2 Status d"
    using CreateDirectory_true [of w d w2] by simp_all
  show "DirectoryExists d w2 = Inr True" "CreateDirectory d w2 = Inr (True, w2)"
    using CreateDirectory_existing [OF f l] DirectoryExists_Dir [OF f] l by simp_all
qed

theorem CreateDirectory_idempotent_witness:
  "CreateDirectory ''svc'' (quiet []) = Inr (True, quiet [(''svc'', Dir)]) \<and>
   lookup (quiet []) ''svc'' = None \<and>
   DirectoryExists ''svc'' (quiet [(''svc'', Dir)]) = Inr True \<and>
   CreateDirectory ''svc'' (quiet [(''svc'', Dir)]) = Inr (True, quiet [(''svc'', Dir)]) \<and>
   CreateDirectory ''svc/'' (quiet []) = Inr (True, quiet [(''svc'', Dir)]) \<and>
   DirectoryExists ''svc/'' (quiet [(''svc'', Dir)]) = Inr True \<and>
   CreateDirectory ''svc/'' (quiet [(''svc'', Dir)]) = Inr (True, quiet [(''svc'', Dir)])"
  using CreateDirectory_idempotent [of "quiet []" "''svc''" "quiet [(''svc'', Dir)]"]
        CreateDirectory_idempotent [of "quiet [(''svc'', Dir)]" "''svc''" "quiet [(''svc'', Dir)]"]
        CreateDirectory_idempotent [of "quiet []" "''svc/''" "quiet [(''svc'', Dir)]"]
        CreateDirectory_idempotent [of "quiet [(''svc'', Dir)]" "''svc/''" "quiet [(''svc'', Dir)]"]
  by (simp add: CreateDirectory_def DirectoryExists_def fs_status_def fs_create_directory_def
        fs_exists_def is_directory_def world_eval)

section \<open>GetDirectories and GetFiles\<close>

lemma children_sick: "children sick_world ''d'' = [''d/a'', ''d/b'', ''d/c'', ''d/e'']"
  by (simp add: children_def sick_world_def quiet_def parent_path_def filename_def is_sep_def world_eval)

lemma GetDirectories_loop_pre:
  "\<forall>x\<in>set pre. \<not> fault w Status x \<Longrightarrow>
   GetDirectories_loop w (pre @ rest) acc =
     GetDirectories_loop w rest (acc @ filter (is_dir_entry w) pre)"
  by (induction pre arbitrary: acc) (auto simp: is_dir_entry_def fs_status_def)

lemma GetFiles_loop_pre:
  "\<forall>x\<in>set pre. \<not> fault w Status x \<Longrightarrow>
   GetFiles_loop w (pre @ rest) acc =
     GetFiles_loop w rest (acc @ filter (is_file_entry w) pre)"
  by (induction pre arbitrary: acc) (auto simp: is_file_entry_def fs_status_def)

lemma GetDirectories_loop_raise:
  "fault w Status e \<Longrightarrow>
   GetDirectories_loop w (e # post) acc = (Some (filesystem_error Status e), acc)"
  by (simp add: fs_status_def)

lemma GetFiles_loop_raise:
  "fault w Status e \<Longrightarrow>
   GetFiles_loop w (e # post) acc = (Some (filesystem_error Status e), acc)"
  by (simp add: fs_status_def)

lemma GetDirectories_clean:
  assumes "fs_directory_iterator p w = Inr es" and "\<forall>x\<in>set es. \<not> fault w Status x"
  shows "GetDirectories p w = Inr (filter (is_dir_entry w) es)"
  using GetDirectories_loop_pre [OF assms(2), of "[]" "[]"] assms(1)
  by (simp add: GetDirectories_def)

lemma GetFiles_clean:
  assumes "fs_directory_iterator p w = Inr es" and "\<forall>x\<in>set es. \<not> fault w Status x"
  shows "GetFiles p w = Inr (filter (is_file_entry w) es)"
  using GetFiles_loop_pre [OF assms(2), of "[]" "[]"] assms(1)
  by (simp add: GetFiles_def)

lemma entry_either:
  "\<not> fault w Status x \<Longrightarrow> is_dir_entry w x \<noteq> is_file_entry w x"
  by (simp add: is_dir_entry_def is_file_entry_def fs_status_def)

lemma entry_not_both: "\<not> (is_dir_entry w x \<and> is_file_entry w x)"
  by (simp add: is_dir_entry_def is_file_entry_def split: sum.splits)

lemma iter_sick: "fs_directory_iterator ''d'' sick_world = Inr [''d/a'', ''d/b'', ''d/c'', ''d/e'']"
  using children_sick by (simp add: fs_directory_iterator_def world_eval sick_world_def quiet_def)

lemma iter_mixed: "fs_directory_iterator ''d'' mixed_world = Inr [''d/a'', ''d/b'', ''d/s'']"
  by (simp add: fs_directory_iterator_def children_def world_eval mixed_world_def quiet_def
        parent_path_def filename_def is_sep_def world_eval)

text \<open>
  C8. When the directory can be scanned and the status of each child can be read,
  \<open>GetDirectories\<close> and \<open>GetFiles\<close> split the immediate children: together they
  are all of them, no path is in both, the first holds the children that are
  directories and the second those that are not.
\<close>

theorem listing_partition:
  assumes "fs_directory_iterator p w = Inr es" and "\<forall>x\<in>set es. \<not> fault w Status x"
  shows "\<exists>ds fs. GetDirectories p w = Inr ds \<and> GetFiles p w = Inr fs \<and>
           es = children w p \<and>
           set ds \<union> set fs = set (children w p) \<and> set ds \<inter> set fs = {} \<and>
           ds = filter (is_dir_entry w) (children w p) \<and>
           fs = filter (is_file_entry w) (children w p)"
proof -
  have es: "es = children w p"
    using assms(1) by (auto simp: fs_directory_iterator_def split: if_splits)
  have u: "set (filter (is_dir_entry w) es) \<union> set (filter (is_file_entry w) es) = set es"
    using assms(2) entry_either by auto
  have i: "set (filter (is_dir_entry w) es) \<inter> set (filter (is_file_entry w) es) = {}"
    using entry_not_both by auto
  show ?thesis
    using GetDirectories_clean [OF assms] GetFiles_clean [OF assms] u i es by simp
qed

theorem listing_partition_witness:
  "fs_directory_iterator ''d'' mixed_world = Inr [''d/a'', ''d/b'', ''d/s''] \<and>
   GetDirectories ''d'' mixed_world = Inr [''d/a''] \<and>
   GetFiles ''d'' mixed_world = Inr [''d/b'', ''d/s'']"
  using listing_partition [of "''d''" mixed_world "[''d/a'', ''d/b'', ''d/s'']"] iter_mixed
  by (simp add: is_dir_entry_def is_file_entry_def fs_status_def is_directory_def world_eval
        mixed_world_def quiet_def children_def parent_path_def filename_def is_sep_def world_eval)

text \<open>
  C3, as the spec states it, fails: with the status of \<open>d/b\<close> unreadable,
  \<open>d/c\<close> is a child that classifies as a directory and \<open>d/e\<close> one that
  classifies as a file, and neither is listed.
\<close>

theorem listing_skip_counterexample:
  "''d/c'' \<in> set (children sick_world ''d'') \<and> is_dir_entry sick_world ''d/c'' \<and>
   GetDirectories ''d'' sick_world = Inr [''d/a''] \<and>
   ''d/e'' \<in> set (children sick_world ''d'') \<and> is_file_entry sick_world ''d/e'' \<and>
   GetFiles ''d'' sick_world = Inr []"
  using iter_sick children_sick
  by (simp add: GetDirectories_def GetFiles_def is_dir_entry_def is_file_entry_def fs_status_def
        is_directory_def world_eval sick_world_def quiet_def)

text \<open>
  C3, amended. An entry whose status raises ends the scan: each listing returns,
  without raising, the entries before the failing one that it selects; the
  failing entry and every entry after it are left out.
\<close>

theorem listing_stops_at_failing_entry:
  assumes "fs_directory_iterator p w = Inr (pre @ e # post)"
      and "\<forall>x\<in>set pre. \<not> fault w Status x" and "fault w Status e"
  shows "GetDirectories p w = Inr (filter (is_dir_entry w) pre) \<and>
         GetFiles p w = Inr (filter (is_file_entry w) pre)"
  using GetDirectories_loop_pre [OF assms(2), of "e # post" "[]"]
        GetFiles_loop_pre [OF assms(2), of "e # post" "[]"]
        GetDirectories_loop_raise [OF assms(3)] GetFiles_loop_raise [OF assms(3)] assms(1)
  by (simp add: GetDirectories_def GetFiles_def)

theorem listing_stops_at_failing_entry_witness:
  "fs_directory_iterator ''d'' sick_world = Inr ([''d/a''] @ ''d/b'' # [''d/c'', ''d/e'']) \<and>
   fault sick_world Status ''d/b'' \<and>
   GetDirectories ''d'' sick_world = Inr [''d/a''] \<and> GetFiles ''d'' sick_world = Inr []"
  using listing_stops_at_failing_entry [of "''d''" sick_world "[''d/a'']" "''d/b''" "[''d/c'', ''d/e'']"]
        iter_sick
  by (simp add: is_dir_entry_def is_file_entry_def fs_status_def
        is_directory_def world_eval sick_world_def quiet_def)

section \<open>Write and Read\<close>

text \<open>
  The stream step of \<open>Write\<close> touches only the temporary path, which differs
  from the destination; if the rename then fails, \<open>Write\<close> returns false, the
  destination is as it was and the temporary keeps what the stream stored.
\<close>

lemma length_strip_sep: "length (strip_sep p) \<le> length p"
proof -
  have "length (dropWhile is_sep (rev p)) \<le> length (rev p)" by (rule length_dropWhile_le)
  then show ?thesis by (simp add: strip_sep_def)
qed

lemma strip_sep_filename: "filename p \<noteq> [] \<Longrightarrow> strip_sep p = p"
  by (cases "rev p") (auto simp: filename_def strip_sep_def split: if_splits)

lemma temp_path_differs: "temp_path p \<noteq> p"
  by (simp add: temp_path_def)

lemma temp_path_not_stripped: "strip_sep p \<noteq> temp_path p"
proof
  assume "strip_sep p = temp_path p"
  then have "length (strip_sep p) = length p + 4" by (simp add: temp_path_def)
  with length_strip_sep [of p] show False by simp
qed

lemma strip_sep_temp_path: "strip_sep (temp_path p) = temp_path p"
  by (simp add: strip_sep_def temp_path_def is_sep_def)

lemma ofstream_write_elsewhere:
  "strip_sep p \<noteq> q \<Longrightarrow> lookup (ofstream_write q s w) p = lookup w p"
  by (auto simp: ofstream_write_def lookup_def entry_at_def update_conv')

lemma Write_before_rename: "lookup (ofstream_write (temp_path p) s w) p = lookup w p"
  by (rule ofstream_write_elsewhere) (rule temp_path_not_stripped)

lemma Write_unfold:
  "Write p c w = Rename (temp_path p) p (ofstream_write (temp_path p) (c @ [CHR 0x0A]) w)"
  by (simp add: Write_def)

lemma fs_rename_raises: "fs_rename a b w = Inl e \<Longrightarrow> e = filesystem_error RenameP a"
  by (auto simp: fs_rename_def split: if_splits option.splits)

lemma Rename_failure: "fs_rename a b w = Inl e \<Longrightarrow> Rename a b w = Inr (False, w)"
  by (frule fs_rename_raises) (simp add: Rename_def)

lemma Rename_success: "fs_rename a b w = Inr w' \<Longrightarrow> Rename a b w = Inr (True, w')"
  by (simp add: Rename_def)

lemma Write_rename_failure:
  assumes "fs_rename (temp_path p) p (ofstream_write (temp_path p) (c @ [CHR 0x0A]) w) = Inl e"
  shows "\<exists>w'. Write p c w = Inr (False, w') \<and> lookup w' p = lookup w p \<and>
           w' = ofstream_write (temp_path p) (c @ [CHR 0x0A]) w"
  using Rename_failure [OF assms] Write_before_rename by (simp add: Write_unfold)

lemma fs_rename_file:
  assumes r: "fs_rename a b w = Inr w'" and a: "lookup w a = Some (File s)"
      and d: "strip_sep a \<noteq> strip_sep b"
  shows "lookup w' b = Some (File s) \<and> fault w' = fault w"
proof -
  have w': "w' = w\<lparr>nodes := AList.update b (File s) (AList.delete (strip_sep a) (nodes w))\<rparr>"
    and b: "strip_sep b = b" and f: "filename (strip_sep b) \<noteq> []"
    using r a d by (auto simp: fs_rename_def split: if_splits)
  from f b have "b \<noteq> []" by (auto simp: filename_def)
  then show ?thesis using w' b
    by (simp add: lookup_def entry_at_def update_conv')
qed

text \<open>
  What does hold of the round trip: when the stream opened the temporary file
  and stored every character, a \<open>Write\<close> that returns true followed by a
  \<open>Read\<close> whose stream can open the destination yields the content and the
  one line terminator.
\<close>

lemma Write_Read_when_stored:
  assumes ok: "Write p c w = Inr (True, w')"
      and opens: "ofstream_opens (temp_path p) w"
      and whole: "short_write w (temp_path p) = None"
      and readable: "\<not> fault w OpenRead p"
  shows "Read p w' = Inr (c @ [CHR 0x0A])"
proof -
  let ?w1 = "ofstream_write (temp_path p) (c @ [CHR 0x0A]) w"
  have "temp_path p \<noteq> []" by (simp add: temp_path_def)
  then have t: "lookup ?w1 (temp_path p) = Some (File (c @ [CHR 0x0A]))"
    using opens whole
    by (simp add: ofstream_write_def lookup_def entry_at_def update_conv' strip_sep_temp_path)
  have f: "fault ?w1 = fault w"
    by (simp add: ofstream_write_def)
  have "Rename (temp_path p) p ?w1 = Inr (True, w')"
    using ok by (simp add: Write_unfold)
  then have "fs_rename (temp_path p) p ?w1 = Inr w'"
    by (cases "fs_rename (temp_path p) p ?w1") (auto dest: Rename_failure Rename_success)
  from fs_rename_file [OF this t] temp_path_not_stripped [of p] f
  have "lookup w' p = Some (File (c @ [CHR 0x0A]))" and "fault w' = fault w"
    by (simp_all add: strip_sep_temp_path)
  then show ?thesis using readable by (simp add: Read_def ifstream_read_def)
qed

lemmas write_eval = Write_def Rename_def fs_rename_def ofstream_write_def ofstream_opens_def
  temp_path_def Read_def ifstream_read_def

text \<open>
  C4 at a failing input. The temporary file is there from an earlier run and
  cannot be opened for writing. The stream raises nothing and stores nothing,
  the rename moves the old temporary over the destination, \<open>Write\<close> returns
  true, and \<open>Read\<close> yields the old temporary's content, not what was written.
\<close>

theorem Write_true_Read_differs:
  "Write ''a/b.txt'' ''hello'' stale_world
     = Inr (True, stale_world\<lparr>nodes := [(''a'', Dir), (''a/b.txt'', File ''stale'')]\<rparr>) \<and>
   Read ''a/b.txt'' (stale_world\<lparr>nodes := [(''a'', Dir), (''a/b.txt'', File ''stale'')]\<rparr>)
     = Inr ''stale''"
  by (simp add: write_eval world_eval stale_world_def)

text \<open>
  C1 at a failing input. The stream that the device cuts short raises nothing
  (the source never sets the stream's exception mask, so its handler is not
  entered), the rename goes ahead, and \<open>Write\<close> returns true with the truncated
  content at the destination in place of the old one.
\<close>

theorem Write_short_write_reaches_destination:
  "lookup full_disk ''a/b.txt'' = Some (File ''old'') \<and>
   Write ''a/b.txt'' ''hello'' full_disk
     = Inr (True, full_disk\<lparr>nodes := [(''a'', Dir), (''a/b.txt'', File ''hel'')]\<rparr>) \<and>
   Read ''a/b.txt'' (full_disk\<lparr>nodes := [(''a'', Dir), (''a/b.txt'', File ''hel'')]\<rparr>) = Inr ''hel''"
  by (simp add: write_eval world_eval full_disk_def)

section \<open>Remove\<close>

text \<open>
  C10. \<open>Remove\<close> returns true when the path is absent and nothing was removed:
  whatever \<open>fs::remove\<close> returns (removed or not) is discarded and the result is
  true; \<open>Remove\<close> returns false only when \<open>fs::remove\<close> raised.
\<close>

theorem Remove_discards_result:
  "(\<not> fault w RemoveP p \<and> lookup w p = None \<longrightarrow> Remove p w = Inr (True, w)) \<and>
   (fs_remove p w = Inr (removed, w') \<longrightarrow> Remove p w = Inr (True, w')) \<and>
   (Remove p w = Inr (False, w') \<longrightarrow> (\<exists>e. fs_remove p w = Inl e))"
  by (auto simp: Remove_def fs_remove_def split: if_splits option.splits)

theorem Remove_discards_result_witness:
  "Remove ''gone'' (quiet []) = Inr (True, quiet []) \<and>
   fs_remove ''gone'' (quiet []) = Inr (False, quiet []) \<and>
   Remove ''f'' ((quiet [(''f'', File ''x'')])\<lparr>fault := (\<lambda>q p. q = RemoveP)\<rparr>)
     = Inr (False, (quiet [(''f'', File ''x'')])\<lparr>fault := (\<lambda>q p. q = RemoveP)\<rparr>) \<and>
   (\<exists>e. fs_remove ''f'' ((quiet [(''f'', File ''x'')])\<lparr>fault := (\<lambda>q p. q = RemoveP)\<rparr>) = Inl e)"
  using Remove_discards_result [of "quiet []" "''gone''" False "quiet []"]
        Remove_discards_result [of "(quiet [(''f'', File ''x'')])\<lparr>fault := (\<lambda>q p. q = RemoveP)\<rparr>"
           "''f''" False "(quiet [(''f'', File ''x'')])\<lparr>fault := (\<lambda>q p. q = RemoveP)\<rparr>"]
  by (simp add: world_eval fs_remove_def Remove_def)

section \<open>Absolute\<close>

lemma follow_alias_free: "follow n lk p = Some q \<Longrightarrow> lk q = None"
  by (induction n arbitrary: p) (auto split: option.splits)

lemma follow_fixed: "lk q = None \<Longrightarrow> follow n lk q = Some q"
  by (cases n) simp_all

lemma follow_unfold:
  "follow n lk p =
     (case lk p of None \<Rightarrow> Some p
      | Some t \<Rightarrow> (case n of 0 \<Rightarrow> None | Suc m \<Rightarrow> follow m lk t))"
  by (cases n) (simp_all split: option.splits)

lemma fs_canonical_result:
  assumes "fs_canonical p w = Inr q"
  shows "q \<noteq> [] \<and> alias_of w q = None"
  using assms follow_alias_free [of symlink_limit "alias_of w" _ q]
  by (auto simp: fs_canonical_def split: if_splits option.splits)

lemma fs_canonical_again:
  assumes "fs_canonical p w = Inr q" and "fs_canonical q w = Inr r"
  shows "r = q"
  using fs_canonical_result [OF assms(1)] assms(2) follow_fixed [of "alias_of w" q symlink_limit]
  by (auto simp: fs_canonical_def split: if_splits)

lemma Absolute_fixed_point: "\<exists>q. Absolute p w = Inr q \<and> Absolute q w = Inr q"
proof (cases "fs_canonical p w")
  case (Inl e)
  then show ?thesis by (simp add: Absolute_def)
next
  case (Inr q)
  show ?thesis
  proof (cases "fs_canonical q w")
    case (Inl e)
    with Inr show ?thesis by (simp add: Absolute_def)
  next
    case r: (Inr r)
    with Inr fs_canonical_again have "r = q" by blast
    with Inr r show ?thesis by (simp add: Absolute_def)
  qed
qed

text \<open>
  C5, as the spec states it, fails at the empty path: it names nothing (neither
  existence check holds), and \<open>fs::canonical\<close> resolves it to the working
  directory, which \<open>Absolute\<close> returns.
\<close>

theorem Absolute_empty_path_counterexample:
  "lookup home_world [] = None \<and>
   DirectoryExists [] home_world = Inr False \<and> FileExists [] home_world = Inr False \<and>
   Absolute [] home_world = Inr ''C:''"
  by (simp add: DirectoryExists_def FileExists_def fs_status_def fs_exists_def Absolute_def
        fs_canonical_def symlink_limit_def follow_unfold home_world_def world_eval)

text \<open>
  C5, amended. \<open>Absolute p\<close> returns \<open>p\<close> itself when \<open>fs::canonical\<close> raises,
  as it does for every path other than the empty one that names nothing; and
  for every \<open>p\<close> the result of \<open>Absolute\<close> is a fixed point of \<open>Absolute\<close>.
\<close>

theorem Absolute_fallback_fixed_point:
  "(p \<noteq> [] \<and> lookup w p = None \<longrightarrow> Absolute p w = Inr p) \<and>
   ((\<exists>e. fs_canonical p w = Inl e) \<longrightarrow> Absolute p w = Inr p) \<and>
   (\<exists>q. Absolute p w = Inr q \<and> Absolute q w = Inr q)"
  using Absolute_fixed_point [of p w]
  by (auto simp: Absolute_def fs_canonical_def)

theorem Absolute_fallback_fixed_point_witness:
  "lookup dotted_world ''nowhere'' = None \<and>
   Absolute ''nowhere'' dotted_world = Inr ''nowhere'' \<and>
   (\<exists>e. fs_canonical ''nowhere'' dotted_world = Inl e) \<and>
   lookup dotted_world ''a/../b'' \<noteq> None \<and>
   Absolute ''a/../b'' dotted_world = Inr ''C:/b'' \<and>
   Absolute ''C:/b'' dotted_world = Inr ''C:/b''"
  using Absolute_fallback_fixed_point [of "''nowhere''" dotted_world]
        Absolute_fallback_fixed_point [of "''a/../b''" dotted_world]
  by (simp add: dotted_world_def world_eval fs_canonical_def Absolute_def symlink_limit_def
        follow_unfold)

section \<open>Failures never reach the caller\<close>

lemma Read_returns: "Read p w = Inr (ifstream_read p w)"
  by (simp add: Read_def)

lemma Read_sentinel:
  "fault w OpenRead p \<or> (\<forall>c. lookup w p \<noteq> Some (File c)) \<Longrightarrow> Read p w = Inr []"
  by (auto simp: Read_def ifstream_read_def split: option.splits node.splits)

lemma Rename_returns: "\<exists>b w'. Rename a c w = Inr (b, w')"
  by (cases "fs_rename a c w") (auto dest: Rename_failure Rename_success)

lemma Write_returns: "\<exists>b w'. Write p c w = Inr (b, w')"
  by (simp add: Write_unfold Rename_returns)

lemma Write_sentinel:
  "fs_rename (temp_path p) p (ofstream_write (temp_path p) (c @ [CHR 0x0A]) w) = Inl e \<Longrightarrow>
   returned (Write p c w) = Inr False"
  by (drule Write_rename_failure) (auto simp: returned_def)

lemma ChangeDirectory_returns: "\<exists>b w'. ChangeDirectory p w = Inr (b, w')"
  by (auto simp: ChangeDirectory_def fs_current_path_def)

lemma ChangeDirectory_sentinel: "fs_current_path p w = Inl e \<Longrightarrow> ChangeDirectory p w = Inr (False, w)"
  by (auto simp: ChangeDirectory_def fs_current_path_def split: if_splits)

lemma DirectoryExists_returns: "\<exists>b. DirectoryExists p w = Inr b"
  by (auto simp: DirectoryExists_def fs_status_def)

lemma DirectoryExists_sentinel: "fs_status p w = Inl e \<Longrightarrow> DirectoryExists p w = Inr False"
  by (auto simp: DirectoryExists_def fs_status_def split: if_splits)

lemma FileExists_returns: "\<exists>b. FileExists p w = Inr b"
  by (auto simp: FileExists_def fs_status_def)

lemma FileExists_sentinel: "fs_status p w = Inl e \<Longrightarrow> FileExists p w = Inr False"
  by (auto simp: FileExists_def fs_status_def split: if_splits)

lemma fs_create_directory_raises:
  "fs_create_directory p w = Inl e \<Longrightarrow> e = filesystem_error CreateDir p"
  by (auto simp: fs_create_directory_def split: if_splits)

lemma CreateDirectory_returns: "\<exists>b w'. CreateDirectory p w = Inr (b, w')"
proof -
  obtain b where b: "DirectoryExists p w = Inr b" using DirectoryExists_returns by blast
  show ?thesis
  proof (cases "fs_create_directory p w")
    case (Inl e)
    with fs_create_directory_raises have "fs_create_directory p w = Inl (filesystem_error CreateDir p)"
      by blast
    then show ?thesis using b by (cases b) (auto simp: CreateDirectory_def)
  next
    case (Inr r)
    then show ?thesis using b
      by (cases b; cases r) (auto simp: CreateDirectory_def split: bool.splits)
  qed
qed

lemma CreateDirectory_sentinel:
  "DirectoryExists p w = Inr False \<Longrightarrow> fs_create_directory p w = Inl e \<Longrightarrow>
   CreateDirectory p w = Inr (False, w)"
  by (auto simp: CreateDirectory_def fs_create_directory_def split: if_splits)

lemma CreateDirectory_status_raises:
  "fs_status p w = Inl e \<Longrightarrow>
   CreateDirectory p w =
     (case fs_create_directory p w of Inl x \<Rightarrow> Inr (False, w) | Inr r \<Rightarrow> Inr r)"
  by (cases "fs_create_directory p w")
     (auto simp: CreateDirectory_def DirectoryExists_sentinel dest: fs_create_directory_raises
        split: bool.splits)

lemma Remove_returns: "\<exists>b w'. Remove p w = Inr (b, w')"
  by (auto simp: Remove_def fs_remove_def split: option.splits)

lemma Remove_sentinel: "fs_remove p w = Inl e \<Longrightarrow> Remove p w = Inr (False, w)"
  by (auto simp: Remove_def fs_remove_def split: if_splits option.splits)

lemma Absolute_sentinel: "fs_canonical p w = Inl e \<Longrightarrow> Absolute p w = Inr p"
  by (simp add: Absolute_def)

lemma GetDirectories_loop_exn:
  "GetDirectories_loop w es acc = (Some e, ds) \<Longrightarrow> \<exists>x. e = filesystem_error Status x"
  by (induction es arbitrary: acc) (auto simp: fs_status_def split: if_splits)

lemma GetFiles_loop_exn:
  "GetFiles_loop w es acc = (Some e, ds) \<Longrightarrow> \<exists>x. e = filesystem_error Status x"
  by (induction es arbitrary: acc) (auto simp: fs_status_def split: if_splits)

lemma GetDirectories_returns: "\<exists>ds. GetDirectories p w = Inr ds"
proof (cases "fs_directory_iterator p w")
  case (Inl e)
  then show ?thesis
    by (auto simp: GetDirectories_def fs_directory_iterator_def split: if_splits)
next
  case (Inr es)
  obtain r ds where l: "GetDirectories_loop w es [] = (r, ds)" by (cases "GetDirectories_loop w es []")
  show ?thesis
  proof (cases r)
    case None
    with Inr l show ?thesis by (simp add: GetDirectories_def)
  next
    case (Some e)
    with l GetDirectories_loop_exn obtain x where "e = filesystem_error Status x" by blast
    with Inr l Some show ?thesis by (simp add: GetDirectories_def)
  qed
qed

lemma GetFiles_returns: "\<exists>ds. GetFiles p w = Inr ds"
proof (cases "fs_directory_iterator p w")
  case (Inl e)
  then show ?thesis
    by (auto simp: GetFiles_def fs_directory_iterator_def split: if_splits)
next
  case (Inr es)
  obtain r ds where l: "GetFiles_loop w es [] = (r, ds)" by (cases "GetFiles_loop w es []")
  show ?thesis
  proof (cases r)
    case None
    with Inr l show ?thesis by (simp add: GetFiles_def)
  next
    case (Some e)
    with l GetFiles_loop_exn obtain x where "e = filesystem_error Status x" by blast
    with Inr l Some show ?thesis by (simp add: GetFiles_def)
  qed
qed

lemma GetDirectories_sentinel: "fs_directory_iterator p w = Inl e \<Longrightarrow> GetDirectories p w = Inr []"
  by (auto simp: GetDirectories_def fs_directory_iterator_def split: if_splits)

lemma GetFiles_sentinel: "fs_directory_iterator p w = Inl e \<Longrightarrow> GetFiles p w = Inr []"
  by (auto simp: GetFiles_def fs_directory_iterator_def split: if_splits)

lemma GetDirectories_partial:
  assumes "fs_directory_iterator p w = Inr (pre @ e # post)"
      and "\<forall>x\<in>set pre. \<not> fault w Status x" and "fault w Status e"
  shows "GetDirectories p w = Inr (filter (is_dir_entry w) pre)"
  using GetDirectories_loop_pre [OF assms(2), of "e # post" "[]"]
        GetDirectories_loop_raise [OF assms(3)] assms(1)
  by (simp add: GetDirectories_def)

lemma GetFiles_partial:
  assumes "fs_directory_iterator p w = Inr (pre @ e # post)"
      and "\<forall>x\<in>set pre. \<not> fault w Status x" and "fault w Status e"
  shows "GetFiles p w = Inr (filter (is_file_entry w) pre)"
  using GetFiles_loop_pre [OF assms(2), of "e # post" "[]"]
        GetFiles_loop_raise [OF assms(3)] assms(1)
  by (simp add: GetFiles_def)

lemma CanonicalUncPath_returns: "\<exists>v w'. CanonicalUncPath p w = Inr (v, w')"
  using CanonicalUncPath_world [of p w] by blast

lemmas prim_defs = fs_rename_def fs_current_path_def fs_status_def fs_create_directory_def
  fs_remove_def fs_canonical_def fs_directory_iterator_def ofstream_write_def ofstream_opens_def
  ifstream_read_def CreateFile_def CloseHandle_def

text \<open>
  C2, as the spec states it, fails for the listings: the status of \<open>d/y\<close>
  raises during the scan and \<open>GetFiles\<close> returns the one entry it had collected.
  That is not the empty list, and it is not the listing without the failing
  entry either: \<open>d/z\<close>, a file whose status can be read, is missing.
\<close>

theorem listing_sentinel_counterexample:
  "fs_status ''d/y'' flaky_world = Inl (filesystem_error Status ''d/y'') \<and>
   ''d/z'' \<in> set (children flaky_world ''d'') \<and> is_file_entry flaky_world ''d/z'' \<and>
   GetFiles ''d'' flaky_world = Inr [''d/x''] \<and>
   GetFiles ''d'' flaky_world \<noteq> Inr [] \<and>
   GetFiles ''d'' flaky_world \<noteq> Inr [''d/x'', ''d/z'']"
  by (simp add: GetFiles_def fs_directory_iterator_def fs_status_def is_directory_def
        is_file_entry_def children_def flaky_world_def world_eval)

text \<open>
  C2, amended. No operation lets a failure of the platform reach its caller:
  each returns normally in every world. \<open>Read\<close> returns the empty content when
  its stream cannot open the file. \<open>Write\<close> returns false when the rename
  raises; \<open>ChangeDirectory\<close>, \<open>Rename\<close> and \<open>Remove\<close> return false when
  \<open>current_path\<close>, \<open>rename\<close>, \<open>remove\<close> raises; \<open>DirectoryExists\<close> and
  \<open>FileExists\<close> return false when \<open>status\<close> raises. \<open>CreateDirectory\<close> returns
  false when \<open>create_directory\<close> raises; when \<open>status\<close> raises inside it, the
  path is taken not to exist and the result is that of \<open>create_directory\<close>,
  false if that raises too. \<open>Absolute\<close> returns the path it was given when
  \<open>canonical\<close> raises, \<open>CanonicalUncPath\<close> returns what \<open>Absolute\<close> returns when
  the handle does not open. A listing returns the empty list when the directory
  cannot be iterated; when the status of an entry raises during the scan, it
  returns the entries it had selected before that entry and leaves out every
  later one.
\<close>

theorem failures_become_sentinels:
  "((\<exists>v. Read p w = Inr v) \<and>
    (fault w OpenRead p \<or> (\<forall>c. lookup w p \<noteq> Some (File c)) \<longrightarrow> Read p w = Inr [])) \<and>
   ((\<exists>b w'. Write p c w = Inr (b, w')) \<and>
    ((\<exists>e. fs_rename (temp_path p) p (ofstream_write (temp_path p) (c @ [CHR 0x0A]) w) = Inl e)
       \<longrightarrow> returned (Write p c w) = Inr False)) \<and>
   ((\<exists>b w'. ChangeDirectory p w = Inr (b, w')) \<and>
    ((\<exists>e. fs_current_path p w = Inl e) \<longrightarrow> ChangeDirectory p w = Inr (False, w))) \<and>
   ((\<exists>b. DirectoryExists p w = Inr b) \<and>
    ((\<exists>e. fs_status p w = Inl e) \<longrightarrow> DirectoryExists p w = Inr False)) \<and>
   ((\<exists>b. FileExists p w = Inr b) \<and>
    ((\<exists>e. fs_status p w = Inl e) \<longrightarrow> FileExists p w = Inr False)) \<and>
   ((\<exists>b w'. CreateDirectory p w = Inr (b, w')) \<and>
    (DirectoryExists p w = Inr False \<and> (\<exists>e. fs_create_directory p w = Inl e)
       \<longrightarrow> CreateDirectory p w = Inr (False, w)) \<and>
    ((\<exists>e. fs_status p w = Inl e) \<longrightarrow>
       CreateDirectory p w =
         (case fs_create_directory p w of Inl x \<Rightarrow> Inr (False, w) | Inr r \<Rightarrow> Inr r))) \<and>
   ((\<exists>b w'. Rename p q w = Inr (b, w')) \<and>
    ((\<exists>e. fs_rename p q w = Inl e) \<longrightarrow> Rename p q w = Inr (False, w))) \<and>
   ((\<exists>b w'. Remove p w = Inr (b, w')) \<and>
    ((\<exists>e. fs_remove p w = Inl e) \<longrightarrow> Remove p w = Inr (False, w))) \<and>
   ((\<exists>a. Absolute p w = Inr a) \<and>
    ((\<exists>e. fs_canonical p w = Inl e) \<longrightarrow> Absolute p w = Inr p)) \<and>
   ((\<exists>v w'. CanonicalUncPath p w = Inr (v, w')) \<and>
    (fst (CreateFile p w) = INVALID_HANDLE_VALUE
       \<longrightarrow> returned (CanonicalUncPath p w) = Absolute p w)) \<and>
   ((\<exists>ds. GetDirectories p w = Inr ds) \<and>
    ((\<exists>e. fs_directory_iterator p w = Inl e) \<longrightarrow> GetDirectories p w = Inr []) \<and>
    (fs_directory_iterator p w = Inr (pre @ entry # post) \<and>
     (\<forall>x\<in>set pre. \<not> fault w Status x) \<and> fault w Status entry
       \<longrightarrow> GetDirectories p w = Inr (filter (is_dir_entry w) pre))) \<and>
   ((\<exists>fs. GetFiles p w = Inr fs) \<and>
    ((\<exists>e. fs_directory_iterator p w = Inl e) \<longrightarrow> GetFiles p w = Inr []) \<and>
    (fs_directory_iterator p w = Inr (pre @ entry # post) \<and>
     (\<forall>x\<in>set pre. \<not> fault w Status x) \<and> fault w Status entry
       \<longrightarrow> GetFiles p w = Inr (filter (is_file_entry w) pre)))"
proof -
  have unc: "fst (CreateFile p w) = INVALID_HANDLE_VALUE \<longrightarrow>
      returned (CanonicalUncPath p w) = Absolute p w"
    using CanonicalUncPath_open_fails [of w p] by (auto simp: CreateFile_def split: if_splits)
  have rd: "fault w OpenRead p \<or> (\<forall>c. lookup w p \<noteq> Some (File c)) \<longrightarrow> Read p w = Inr []"
    using Read_sentinel [of w p] by blast
  have wr: "(\<exists>e. fs_rename (temp_path p) p (ofstream_write (temp_path p) (c @ [CHR 0x0A]) w) = Inl e)
       \<longrightarrow> returned (Write p c w) = Inr False"
    using Write_sentinel by blast
  have cd: "(\<exists>e. fs_current_path p w = Inl e) \<longrightarrow> ChangeDirectory p w = Inr (False, w)"
    using ChangeDirectory_sentinel by blast
  have de: "(\<exists>e. fs_status p w = Inl e) \<longrightarrow> DirectoryExists p w = Inr False"
    using DirectoryExists_sentinel by blast
  have fe: "(\<exists>e. fs_status p w = Inl e) \<longrightarrow> FileExists p w = Inr False"
    using FileExists_sentinel by blast
  have mk: "DirectoryExists p w = Inr False \<and> (\<exists>e. fs_create_directory p w = Inl e)
       \<longrightarrow> CreateDirectory p w = Inr (False, w)"
    using CreateDirectory_sentinel by blast
  have mks: "(\<exists>e. fs_status p w = Inl e) \<longrightarrow>
       CreateDirectory p w =
         (case fs_create_directory p w of Inl x \<Rightarrow> Inr (False, w) | Inr r \<Rightarrow> Inr r)"
    using CreateDirectory_status_raises by blast
  have rn: "(\<exists>e. fs_rename p q w = Inl e) \<longrightarrow> Rename p q w = Inr (False, w)"
    using Rename_failure by blast
  have rm: "(\<exists>e. fs_remove p w = Inl e) \<longrightarrow> Remove p w = Inr (False, w)"
    using Remove_sentinel by blast
  have ab: "(\<exists>e. fs_canonical p w = Inl e) \<longrightarrow> Absolute p w = Inr p"
    using Absolute_sentinel by blast
  have gd: "(\<exists>e. fs_directory_iterator p w = Inl e) \<longrightarrow> GetDirectories p w = Inr []"
    using GetDirectories_sentinel by blast
  have gf: "(\<exists>e. fs_directory_iterator p w = Inl e) \<longrightarrow> GetFiles p w = Inr []"
    using GetFiles_sentinel by blast
  have gdp: "fs_directory_iterator p w = Inr (pre @ entry # post) \<and>
     (\<forall>x\<in>set pre. \<not> fault w Status x) \<and> fault w Status entry
       \<longrightarrow> GetDirectories p w = Inr (filter (is_dir_entry w) pre)"
    using GetDirectories_partial by blast
  have gfp: "fs_directory_iterator p w = Inr (pre @ entry # post) \<and>
     (\<forall>x\<in>set pre. \<not> fault w Status x) \<and> fault w Status entry
       \<longrightarrow> GetFiles p w = Inr (filter (is_file_entry w) pre)"
    using GetFiles_partial by blast
  have rdt: "\<exists>v. Read p w = Inr v" using Read_returns by blast
  note parts = rdt rd Write_returns wr ChangeDirectory_returns cd DirectoryExists_returns de
    FileExists_returns fe CreateDirectory_returns mk mks Rename_returns rn Remove_returns rm
    Absolute_total ab CanonicalUncPath_returns unc GetDirectories_returns gd gdp
    GetFiles_returns gf gfp
  show ?thesis
    by (intro conjI; rule parts)
qed


theorem failures_become_sentinels_witness:
  "Read ''d/f'' denied_world = Inr [] \<and>
   returned (Write ''d/f'' ''x'' denied_world) = Inr False \<and>
   ChangeDirectory ''d/f'' denied_world = Inr (False, denied_world) \<and>
   DirectoryExists ''d/f'' denied_world = Inr False \<and>
   FileExists ''d/f'' denied_world = Inr False \<and>
   CreateDirectory ''d/f'' denied_world = Inr (False, denied_world) \<and>
   Rename ''d/f'' ''d/g'' denied_world = Inr (False, denied_world) \<and>
   Remove ''d/f'' denied_world = Inr (False, denied_world) \<and>
   Absolute ''d/f'' denied_world = Inr ''d/f'' \<and>
   returned (CanonicalUncPath ''d/f'' denied_world) = Inr ''d/f'' \<and>
   GetDirectories ''d/f'' denied_world = Inr [] \<and>
   GetFiles ''d/f'' denied_world = Inr [] \<and>
   fault sick_world Status ''d/b'' \<and>
   GetDirectories ''d'' sick_world = Inr [''d/a''] \<and>
   GetFiles ''d'' sick_world = Inr [] \<and>
   fs_status ''svc'' blind_world = Inl (filesystem_error Status ''svc'') \<and>
   CreateDirectory ''svc'' blind_world
     = Inr (True, blind_world\<lparr>nodes := [(''svc'', Dir)]\<rparr>)"
  using failures_become_sentinels [of "''d/f''" denied_world "''x''" "''d/g''"]
        failures_become_sentinels [of "''svc''" blind_world "''x''" "''d/g''"]
        failures_become_sentinels [of "''d''" sick_world "''x''" "''d/g''" "[''d/a'']" "''d/b''"
           "[''d/c'', ''d/e'']"]
        iter_sick
  by (simp add: prim_defs DirectoryExists_def denied_world_def blind_world_def world_eval
        is_dir_entry_def is_file_entry_def is_directory_def sick_world_def)

end
